theory Spec2Isabelle
  imports Main "HOL-Library.AList"
begin

section \<open>JavaScript values\<close>

text \<open>
  The configuration loader works on untyped JavaScript values: what a config file
  exports, what a factory returns, the option objects that are merged. An object is an
  association list in insertion order (the order \<open>Object.entries\<close> walks), an array a
  list, and a function the (awaited) result it gives for the context name it is called
  with.
\<close>

datatype jsval =
    JUndefined
  | JNull
  | JBool bool
  | JNum int
  | JStr string
  | JArr "jsval list"
  | JObj "(string \<times> jsval) list"
  | JFun "string \<Rightarrow> jsval"

type_synonym props = "(string \<times> jsval) list"

text \<open>What the loader throws: \<open>new Error(message)\<close>, the runtime's \<open>TypeError\<close> on a
  property read of \<open>undefined\<close>, and the failure of \<open>Utils.requireFrom\<close> on its argument
  (a module id, or \<open>None\<close> for \<open>undefined\<close>).\<close>

datatype error = Error string | TypeError string | RequireError "string option"

section \<open>Strings\<close>

definition lowerChar :: "char \<Rightarrow> char" where
  "lowerChar c =
     (case map_of (zip ''ABCDEFGHIJKLMNOPQRSTUVWXYZ'' ''abcdefghijklmnopqrstuvwxyz'') c of
        Some d \<Rightarrow> d
      | None \<Rightarrow> c)"

definition upperChar :: "char \<Rightarrow> char" where
  "upperChar c =
     (case map_of (zip ''abcdefghijklmnopqrstuvwxyz'' ''ABCDEFGHIJKLMNOPQRSTUVWXYZ'') c of
        Some d \<Rightarrow> d
      | None \<Rightarrow> c)"

text \<open>\<open>String.prototype.toLowerCase\<close> on the letters A to Z; every other character of
  the 8-bit \<^typ>\<open>char\<close> is left as it is.\<close>

definition toLowerCase :: "string \<Rightarrow> string" where
  "toLowerCase s = map lowerChar s"

text \<open>A string \<open>v\<close> is a casing of \<open>s\<close> when it has the same length and each of its
  characters is the character of \<open>s\<close> at that place or its upper-case form.\<close>

definition casingOf :: "string \<Rightarrow> string \<Rightarrow> bool" where
  "casingOf v s = list_all2 (\<lambda>c d. c = d \<or> c = upperChar d) v s"

definition endsWith :: "string \<Rightarrow> string \<Rightarrow> bool" where
  "endsWith s suf = (length suf \<le> length s \<and> drop (length s - length suf) s = suf)"

definition startsWith :: "string \<Rightarrow> string \<Rightarrow> bool" where
  "startsWith s pre = (take (length pre) s = pre)"

fun join :: "string \<Rightarrow> string list \<Rightarrow> string" where
  "join sep [] = []"
| "join sep [x] = x"
| "join sep (x # y # ys) = x @ sep @ join sep (y # ys)"

fun splitOn :: "char \<Rightarrow> string \<Rightarrow> string list" where
  "splitOn c [] = [[]]"
| "splitOn c (x # xs) =
     (if x = c then [] # splitOn c xs
      else (case splitOn c xs of [] \<Rightarrow> [[x]] | y # ys \<Rightarrow> (x # y) # ys))"

fun showNat :: "nat \<Rightarrow> string" where
  "showNat n =
     (if n < 10 then [''0123456789'' ! n]
      else showNat (n div 10) @ [''0123456789'' ! (n mod 10)])"

definition showInt :: "int \<Rightarrow> string" where
  "showInt i = (if i < 0 then ''-'' @ showNat (nat (- i)) else showNat (nat i))"

definition quote :: string where
  "quote = [CHR 0x27]"


section \<open>Boolean-like environment strings\<close>

definition falsyStrings :: "string list" where
  "falsyStrings = [''false'', ''f'', ''0'', ''no'', ''n'', '''']"

definition truthyStrings :: "string list" where
  "truthyStrings = [''true'', ''t'', ''1'', ''yes'', ''y'']"

definition toBoolean :: "string \<Rightarrow> bool" where
  "toBoolean v = (v \<in> set truthyStrings)"

text \<open>The \<open>loader\<close> option: \<open>false\<close>, or the name of a loader (\<open>'auto'\<close> among them).\<close>

datatype loader_option = LoaderFalse | LoaderName string

definition loaderOptionFromEnv :: "string \<Rightarrow> loader_option" where
  "loaderOptionFromEnv v =
     (let maybeBoolean = toLowerCase v in
      if maybeBoolean \<in> set falsyStrings then LoaderFalse
      else if maybeBoolean \<in> set truthyStrings then LoaderName ''auto''
      else LoaderName v)"

section \<open>Settings, the package manifest and the process\<close>

record settings =
  verbose :: "bool option"
  tsConfigPath :: "string option"
  configPaths :: "string list option"
  loader :: "loader_option option"
  alwaysAllowTs :: "bool option"
  useTsNode :: "bool option"
  preferTs :: "bool option"

text \<open>What \<open>getPackageConfig()\<close> returns: the \<open>package.json\<close> found from the working
  directory upwards (an empty manifest when there is none). Its \<open>mikro-orm\<close> section
  is a \<^typ>\<open>settings\<close> value, its dependency tables are kept by their keys.\<close>

record package_json =
  pkgSettings :: settings
  pkgType :: "string option"
  dependencies :: "string list"
  devDependencies :: "string list"

text \<open>
  Everything the loader reads from outside: the process (environment, working
  directory, \<open>process.versions.bun\<close>), the file system, the manifest, and the
  collaborators that live in other modules (\<open>Utils.absolutePath\<close>,
  \<open>Utils.normalizePath\<close>, \<open>Utils.detectTsNode\<close>, \<open>Utils.getORMVersion\<close>,
  \<open>Utils.requireFrom\<close>, \<open>createLoader\<close>, \<open>colors\<close>) and two operations of the language
  whose result depends on more than this model of strings holds: the unary plus
  (\<open>toNumber\<close>) and \<open>String.prototype.trim\<close> (\<open>trim\<close>). \<open>requireFrom\<close> takes the module id
  it is called with (\<open>None\<close> when the code calls it with \<open>undefined\<close>) and gives \<open>None\<close>
  where the call throws; the loader's \<open>import\<close> is the function \<open>createLoader\<close> returns.
\<close>

record world =
  env :: "string \<rightharpoonup> string"
  cwd :: string
  versionsBun :: "string option"
  pathExistsSync :: "string \<Rightarrow> bool"
  packageConfig :: package_json
  ormVersion :: string
  detectTsNode :: bool
  absolutePath :: "string \<Rightarrow> string"
  normalizePath :: "string \<Rightarrow> string"
  createLoader :: "string \<Rightarrow> settings \<Rightarrow> string \<Rightarrow> jsval"
  requireFrom :: "string option \<Rightarrow> jsval option"
  toNumber :: "string \<Rightarrow> jsval"
  trim :: "string \<Rightarrow> string"
  cyan :: "string \<Rightarrow> string"
  yellow :: "string \<Rightarrow> string"
  green :: "string \<Rightarrow> string"


section \<open>Helpers of \<open>Utils\<close>\<close>

text \<open>Modelled from the spec: \<open>Utils.unique\<close> is not among the sources. "Duplicate paths
  are removed keeping first occurrence."\<close>

fun unique :: "'a list \<Rightarrow> 'a list" where
  "unique [] = []"
| "unique (x # xs) = x # unique (filter (\<lambda>y. y \<noteq> x) xs)"

text \<open>Modelled from the spec: \<open>Utils.hasObjectKeys\<close> is not among the sources. The
  environment-derived options are "non-empty"; a sub-namespace that "received no keys"
  is pruned.\<close>

definition hasObjectKeys :: "jsval \<Rightarrow> bool" where
  "hasObjectKeys v = (case v of JObj kvs \<Rightarrow> kvs \<noteq> [] | _ \<Rightarrow> False)"

text \<open>Modelled from the spec: \<open>Utils.mergeConfig\<close> is not among the sources. "Deep-merge
  mappings in strict left-to-right precedence where later sources override earlier ones
  for overlapping keys, nested mappings merge recursively, and non-mapping values
  (including arrays) are replaced wholesale rather than concatenated."
  \<open>mergeProps t s\<close> merges the properties of the source \<open>s\<close> into the target \<open>t\<close>;
  a source that is not a mapping contributes nothing.\<close>

fun mergeProps :: "props \<Rightarrow> props \<Rightarrow> props" where
  "mergeProps t [] = t"
| "mergeProps t ((k, v) # s) =
     mergeProps
       (AList.update k
          (case v of
             JObj vs \<Rightarrow>
               (case map_of t k of
                  Some (JObj ts) \<Rightarrow> JObj (mergeProps ts vs)
                | _ \<Rightarrow> v)
           | _ \<Rightarrow> v)
          t)
       s"

definition mergeInto :: "jsval \<Rightarrow> jsval \<Rightarrow> jsval" where
  "mergeInto target source =
     (case target of
        JObj t \<Rightarrow> (case source of JObj s \<Rightarrow> JObj (mergeProps t s) | _ \<Rightarrow> target)
      | _ \<Rightarrow> target)"

definition mergeConfig :: "jsval \<Rightarrow> jsval list \<Rightarrow> jsval" where
  "mergeConfig target sources = foldl mergeInto target sources"

text \<open>The precedence rule in the words of the specification, for the values \<open>lo\<close> and
  \<open>hi\<close> that a source of lower and one of higher precedence hold under one key: the
  higher source wins, except that two mappings merge key-wise.\<close>

definition override :: "jsval option \<Rightarrow> jsval option \<Rightarrow> jsval option" where
  "override lo hi =
     (case hi of
        None \<Rightarrow> lo
      | Some (JObj h) \<Rightarrow>
          (case lo of Some (JObj l) \<Rightarrow> Some (JObj (mergeProps l h)) | _ \<Rightarrow> hi)
      | Some v \<Rightarrow> hi)"

section \<open>Decoding the environment\<close>

datatype mapper = AsString | AsArray | AsNumber | AsBoolean | AsDriver

definition PLATFORMS :: "(string \<times> string \<times> string) list" where
  "PLATFORMS =
     [(''mongo'', ''MongoDriver'', ''@mikro-orm/mongodb''),
      (''mysql'', ''MySqlDriver'', ''@mikro-orm/mysql''),
      (''mssql'', ''MsSqlDriver'', ''@mikro-orm/mssql''),
      (''mariadb'', ''MariaDbDriver'', ''@mikro-orm/mariadb''),
      (''postgresql'', ''PostgreSqlDriver'', ''@mikro-orm/postgresql''),
      (''sqlite'', ''SqliteDriver'', ''@mikro-orm/sqlite''),
      (''better-sqlite'', ''BetterSqliteDriver'', ''@mikro-orm/better-sqlite''),
      (''libsql'', ''LibSqlDriver'', ''@mikro-orm/libsql'')]"

text \<open>A property read \<open>m[k]\<close> on the value a module resolves to.\<close>

definition getProp :: "jsval \<Rightarrow> string \<Rightarrow> error + jsval" where
  "getProp m k =
     (case m of
        JObj kvs \<Rightarrow> (case map_of kvs k of Some v \<Rightarrow> Inr v | None \<Rightarrow> Inr JUndefined)
      | JUndefined \<Rightarrow> Inl (TypeError k)
      | JNull \<Rightarrow> Inl (TypeError k)
      | _ \<Rightarrow> Inr JUndefined)"

text \<open>The names every object literal inherits from \<open>Object.prototype\<close>: for these
  \<open>PLATFORMS[v]\<close> is not \<open>undefined\<close>, but its \<open>module\<close> and \<open>className\<close> are.\<close>

definition objectPrototypeKeys :: "string list" where
  "objectPrototypeKeys =
     [''constructor'', ''__defineGetter__'', ''__defineSetter__'', ''hasOwnProperty'',
      ''__lookupGetter__'', ''__lookupSetter__'', ''isPrototypeOf'',
      ''propertyIsEnumerable'', ''toString'', ''valueOf'', ''__proto__'',
      ''toLocaleString'']"

text \<open>\<open>Utils.requireFrom(PLATFORMS[v].module)[PLATFORMS[v].className]\<close>: for a name of the
  table the module is required and its class read; for an inherited name
  \<open>requireFrom\<close> is called with \<open>undefined\<close> and the property \<open>undefined\<close> is read from
  what it gives; for any other name the read of \<open>module\<close> from \<open>undefined\<close> throws.\<close>

definition driver :: "world \<Rightarrow> string \<Rightarrow> error + jsval" where
  "driver w v =
     (case map_of PLATFORMS v of
        Some (className, module) \<Rightarrow>
          (case requireFrom w (Some module) of
             None \<Rightarrow> Inl (RequireError (Some module))
           | Some m \<Rightarrow> getProp m className)
      | None \<Rightarrow>
          if v \<in> set objectPrototypeKeys then
            (case requireFrom w None of
               None \<Rightarrow> Inl (RequireError None)
             | Some m \<Rightarrow> getProp m ''undefined'')
          else Inl (TypeError ''module''))"

definition array :: "world \<Rightarrow> string \<Rightarrow> jsval" where
  "array w v = JArr (map (\<lambda>vv. JStr (trim w vv)) (splitOn CHR '','' v))"

fun applyMapper :: "world \<Rightarrow> mapper \<Rightarrow> string \<Rightarrow> error + jsval" where
  "applyMapper w AsString v = Inr (JStr v)"
| "applyMapper w AsArray v = Inr (array w v)"
| "applyMapper w AsNumber v = Inr (toNumber w v)"
| "applyMapper w AsBoolean v = Inr (JBool (toBoolean v))"
| "applyMapper w AsDriver v = driver w v"

text \<open>\<open>read(o, envKey, key, mapper)\<close>: nothing when the variable is not in the
  environment, else \<open>o[key] = mapper(val)\<close>.\<close>

definition read :: "world \<Rightarrow> props \<Rightarrow> string \<Rightarrow> string \<Rightarrow> mapper \<Rightarrow> error + props" where
  "read w ob envKey key m =
     (case env w envKey of
        None \<Rightarrow> Inr ob
      | Some val \<Rightarrow>
          (case applyMapper w m val of
             Inl e \<Rightarrow> Inl e
           | Inr x \<Rightarrow> Inr (AList.update key x ob)))"

text \<open>A run of \<open>read\<close> calls on one object, in the order of the source.\<close>

fun readAll :: "world \<Rightarrow> (string \<times> string \<times> mapper) list \<Rightarrow> props \<Rightarrow> error + props" where
  "readAll w [] ob = Inr ob"
| "readAll w ((envKey, key, m) # rest) ob =
     (case read w ob envKey key m of
        Inl e \<Rightarrow> Inl e
      | Inr ob' \<Rightarrow> readAll w rest ob')"

definition rootVars :: "(string \<times> string \<times> mapper) list" where
  "rootVars =
     [(''MIKRO_ORM_BASE_DIR'', ''baseDir'', AsString),
      (''MIKRO_ORM_TYPE'', ''driver'', AsDriver),
      (''MIKRO_ORM_ENTITIES'', ''entities'', AsArray),
      (''MIKRO_ORM_ENTITIES_TS'', ''entitiesTs'', AsArray),
      (''MIKRO_ORM_CLIENT_URL'', ''clientUrl'', AsString),
      (''MIKRO_ORM_HOST'', ''host'', AsString),
      (''MIKRO_ORM_PORT'', ''port'', AsNumber),
      (''MIKRO_ORM_USER'', ''user'', AsString),
      (''MIKRO_ORM_PASSWORD'', ''password'', AsString),
      (''MIKRO_ORM_DB_NAME'', ''dbName'', AsString),
      (''MIKRO_ORM_SCHEMA'', ''schema'', AsString),
      (''MIKRO_ORM_LOAD_STRATEGY'', ''loadStrategy'', AsString),
      (''MIKRO_ORM_BATCH_SIZE'', ''batchSize'', AsNumber),
      (''MIKRO_ORM_USE_BATCH_INSERTS'', ''useBatchInserts'', AsBoolean),
      (''MIKRO_ORM_USE_BATCH_UPDATES'', ''useBatchUpdates'', AsBoolean),
      (''MIKRO_ORM_STRICT'', ''strict'', AsBoolean),
      (''MIKRO_ORM_VALIDATE'', ''validate'', AsBoolean),
      (''MIKRO_ORM_ALLOW_GLOBAL_CONTEXT'', ''allowGlobalContext'', AsBoolean),
      (''MIKRO_ORM_AUTO_JOIN_ONE_TO_ONE_OWNER'', ''autoJoinOneToOneOwner'', AsBoolean),
      (''MIKRO_ORM_POPULATE_AFTER_FLUSH'', ''populateAfterFlush'', AsBoolean),
      (''MIKRO_ORM_FORCE_ENTITY_CONSTRUCTOR'', ''forceEntityConstructor'', AsBoolean),
      (''MIKRO_ORM_FORCE_UNDEFINED'', ''forceUndefined'', AsBoolean),
      (''MIKRO_ORM_FORCE_UTC_TIMEZONE'', ''forceUtcTimezone'', AsBoolean),
      (''MIKRO_ORM_TIMEZONE'', ''timezone'', AsString),
      (''MIKRO_ORM_ENSURE_INDEXES'', ''ensureIndexes'', AsBoolean),
      (''MIKRO_ORM_IMPLICIT_TRANSACTIONS'', ''implicitTransactions'', AsBoolean),
      (''MIKRO_ORM_DEBUG'', ''debug'', AsBoolean),
      (''MIKRO_ORM_COLORS'', ''colors'', AsBoolean)]"

definition discoveryVars :: "(string \<times> string \<times> mapper) list" where
  "discoveryVars =
     [(''MIKRO_ORM_DISCOVERY_WARN_WHEN_NO_ENTITIES'', ''warnWhenNoEntities'', AsBoolean),
      (''MIKRO_ORM_DISCOVERY_REQUIRE_ENTITIES_ARRAY'', ''requireEntitiesArray'', AsBoolean),
      (''MIKRO_ORM_DISCOVERY_ALWAYS_ANALYSE_PROPERTIES'', ''alwaysAnalyseProperties'', AsBoolean),
      (''MIKRO_ORM_DISCOVERY_DISABLE_DYNAMIC_FILE_ACCESS'', ''disableDynamicFileAccess'', AsBoolean)]"

definition migrationsVars :: "(string \<times> string \<times> mapper) list" where
  "migrationsVars =
     [(''MIKRO_ORM_MIGRATIONS_TABLE_NAME'', ''tableName'', AsString),
      (''MIKRO_ORM_MIGRATIONS_PATH'', ''path'', AsString),
      (''MIKRO_ORM_MIGRATIONS_PATH_TS'', ''pathTs'', AsString),
      (''MIKRO_ORM_MIGRATIONS_GLOB'', ''glob'', AsString),
      (''MIKRO_ORM_MIGRATIONS_TRANSACTIONAL'', ''transactional'', AsBoolean),
      (''MIKRO_ORM_MIGRATIONS_DISABLE_FOREIGN_KEYS'', ''disableForeignKeys'', AsBoolean),
      (''MIKRO_ORM_MIGRATIONS_ALL_OR_NOTHING'', ''allOrNothing'', AsBoolean),
      (''MIKRO_ORM_MIGRATIONS_DROP_TABLES'', ''dropTables'', AsBoolean),
      (''MIKRO_ORM_MIGRATIONS_SAFE'', ''safe'', AsBoolean),
      (''MIKRO_ORM_MIGRATIONS_SILENT'', ''silent'', AsBoolean),
      (''MIKRO_ORM_MIGRATIONS_EMIT'', ''emit'', AsString),
      (''MIKRO_ORM_MIGRATIONS_SNAPSHOT'', ''snapshot'', AsBoolean),
      (''MIKRO_ORM_MIGRATIONS_SNAPSHOT_NAME'', ''snapshotName'', AsString)]"

definition schemaGeneratorVars :: "(string \<times> string \<times> mapper) list" where
  "schemaGeneratorVars =
     [(''MIKRO_ORM_SCHEMA_GENERATOR_DISABLE_FOREIGN_KEYS'', ''disableForeignKeys'', AsBoolean),
      (''MIKRO_ORM_SCHEMA_GENERATOR_CREATE_FOREIGN_KEY_CONSTRAINTS'', ''createForeignKeyConstraints'', AsBoolean)]"

definition seederVars :: "(string \<times> string \<times> mapper) list" where
  "seederVars =
     [(''MIKRO_ORM_SEEDER_PATH'', ''path'', AsString),
      (''MIKRO_ORM_SEEDER_PATH_TS'', ''pathTs'', AsString),
      (''MIKRO_ORM_SEEDER_GLOB'', ''glob'', AsString),
      (''MIKRO_ORM_SEEDER_EMIT'', ''emit'', AsString),
      (''MIKRO_ORM_SEEDER_DEFAULT_SEEDER'', ''defaultSeeder'', AsString)]"

text \<open>\<open>cleanup(o, k)\<close>: the sub-namespace is deleted when it has no keys.\<close>

definition cleanup :: "props \<Rightarrow> string \<Rightarrow> props" where
  "cleanup ob k =
     (if hasObjectKeys (case map_of ob k of Some v \<Rightarrow> v | None \<Rightarrow> JUndefined) then ob
      else AList.delete k ob)"

text \<open>One sub-namespace: \<open>ret.k = {}\<close>, the reads into it, then \<open>cleanup(ret, k)\<close>.\<close>

definition readNamespace ::
  "world \<Rightarrow> string \<Rightarrow> (string \<times> string \<times> mapper) list \<Rightarrow> props \<Rightarrow> error + props" where
  "readNamespace w k vars ret =
     (let ret1 = AList.update k (JObj []) ret in
      case readAll w vars [] of
        Inl e \<Rightarrow> Inl e
      | Inr sub \<Rightarrow> Inr (cleanup (AList.update k (JObj sub) ret1) k))"

definition loadEnvironmentVars :: "world \<Rightarrow> error + jsval" where
  "loadEnvironmentVars w =
     (case readAll w rootVars [] of
        Inl e \<Rightarrow> Inl e
      | Inr r0 \<Rightarrow>
     (case readNamespace w ''discovery'' discoveryVars r0 of
        Inl e \<Rightarrow> Inl e
      | Inr r1 \<Rightarrow>
     (case readNamespace w ''migrations'' migrationsVars r1 of
        Inl e \<Rightarrow> Inl e
      | Inr r2 \<Rightarrow>
     (case readNamespace w ''schemaGenerator'' schemaGeneratorVars r2 of
        Inl e \<Rightarrow> Inl e
      | Inr r3 \<Rightarrow>
     (case readNamespace w ''seeder'' seederVars r3 of
        Inl e \<Rightarrow> Inl e
      | Inr r4 \<Rightarrow> Inr (JObj r4))))))"

section \<open>Settings and candidate paths\<close>

definition getSettings :: "world \<Rightarrow> settings" where
  "getSettings w =
     (let s0 = pkgSettings (packageConfig w);
          s1 = s0\<lparr>tsConfigPath :=
                 (case env w ''MIKRO_ORM_CLI_TS_CONFIG_PATH'' of
                    Some v \<Rightarrow> Some v | None \<Rightarrow> tsConfigPath s0)\<rparr>;
          s2 = s1\<lparr>verbose :=
                 (case env w ''MIKRO_ORM_CLI_VERBOSE'' of
                    Some v \<Rightarrow> Some (toBoolean v) | None \<Rightarrow> verbose s1)\<rparr>;
          s3 = s2\<lparr>useTsNode :=
                 (case env w ''MIKRO_ORM_CLI_USE_TS_NODE'' of
                    Some v \<Rightarrow> Some (toBoolean v) | None \<Rightarrow> useTsNode s2)\<rparr>;
          s4 = s3\<lparr>alwaysAllowTs :=
                 (case env w ''MIKRO_ORM_CLI_ALWAYS_ALLOW_TS'' of
                    Some v \<Rightarrow> Some (toBoolean v) | None \<Rightarrow> alwaysAllowTs s3)\<rparr>;
          s5 = s4\<lparr>loader :=
                 (case env w ''MIKRO_ORM_CLI_LOADER'' of
                    Some v \<Rightarrow> Some (loaderOptionFromEnv v) | None \<Rightarrow> loader s4)\<rparr>
      in case env w ''MIKRO_ORM_CLI_CONFIG'' of
           Some p \<Rightarrow> (if endsWith p ''.ts'' then s5\<lparr>useTsNode := Some True\<rparr> else s5)
         | None \<Rightarrow> s5)"

text \<open>\<open>settings.alwaysAllowTs ?? process.versions.bun\<close>, read as a condition.\<close>

definition alwaysAllowTsOrBun :: "world \<Rightarrow> bool" where
  "alwaysAllowTsOrBun w =
     (case alwaysAllowTs (getSettings w) of
        Some b \<Rightarrow> b
      | None \<Rightarrow> (case versionsBun w of Some v \<Rightarrow> v \<noteq> [] | None \<Rightarrow> False))"

text \<open>The list \<open>paths\<close> of \<open>getConfigPaths\<close> after its last \<open>push\<close>.\<close>

definition pushedPaths :: "world \<Rightarrow> string list" where
  "pushedPaths w =
     (let settings = getSettings w;
          paths0 = (case env w ''MIKRO_ORM_CLI_CONFIG'' of
                      Some p \<Rightarrow> (if p \<noteq> [] then [p] else [])
                    | None \<Rightarrow> []);
          paths1 = paths0 @ (case configPaths settings of Some ps \<Rightarrow> ps | None \<Rightarrow> []);
          paths2 = (if useTsNode settings \<noteq> Some False \<or> alwaysAllowTsOrBun w
                    then paths1 @ [''./src/mikro-orm.config.ts'', ''./mikro-orm.config.ts'']
                    else paths1);
          distDir = pathExistsSync w (cwd w @ ''/dist'');
          buildDir = pathExistsSync w (cwd w @ ''/build'');
          path = (if distDir then ''dist'' else if buildDir then ''build'' else ''src'')
      in paths2 @ [''./'' @ path @ ''/mikro-orm.config.js'', ''./mikro-orm.config.js''])"

definition getConfigPaths :: "world \<Rightarrow> string list" where
  "getConfigPaths w =
     (let tsNode = detectTsNode w in
      filter (\<lambda>p. endsWith p ''.js'' \<or> tsNode \<or> alwaysAllowTsOrBun w)
        (unique (pushedPaths w)))"

definition isESM :: "world \<Rightarrow> bool" where
  "isESM w = ((case pkgType (packageConfig w) of Some t \<Rightarrow> t | None \<Rightarrow> '''') = ''module'')"

section \<open>Finding and importing the config file\<close>

text \<open>The loop of \<open>getConfigFile\<close>: each path is made absolute and normalised, then
  tested. The result comes with the list of the paths the loader's \<open>import\<close> was
  called on.\<close>

definition resolvePath :: "world \<Rightarrow> string \<Rightarrow> string" where
  "resolvePath w p = normalizePath w (absolutePath w p)"

fun configFileLoop ::
  "world \<Rightarrow> (string \<Rightarrow> jsval) \<Rightarrow> string list \<Rightarrow> (string \<times> jsval) option \<times> string list" where
  "configFileLoop w configLoader [] = (None, [])"
| "configFileLoop w configLoader (p # ps) =
     (let path = resolvePath w p in
      if pathExistsSync w path then (Some (path, configLoader path), [path])
      else configFileLoop w configLoader ps)"

definition getConfigFile ::
  "world \<Rightarrow> string list \<Rightarrow> string \<Rightarrow> settings \<Rightarrow> (string \<times> jsval) option \<times> string list" where
  "getConfigFile w paths basePath settings =
     (let configLoader = createLoader w basePath settings in
      configFileLoop w configLoader paths)"

section \<open>Selecting one configuration\<close>

definition configFinder :: "string \<Rightarrow> jsval \<Rightarrow> bool" where
  "configFinder contextName cfg =
     (case cfg of
        JObj kvs \<Rightarrow>
          (case map_of kvs ''contextName'' of
             Some v \<Rightarrow> (case v of JStr s \<Rightarrow> s = contextName | _ \<Rightarrow> False)
           | None \<Rightarrow> contextName = ''default'')
      | JArr xs \<Rightarrow> contextName = ''default''
      | _ \<Rightarrow> False)"

definition isValidConfigFactoryResult :: "string \<Rightarrow> jsval \<Rightarrow> bool" where
  "isValidConfigFactoryResult contextName cfg =
     (case cfg of
        JObj kvs \<Rightarrow>
          (case map_of kvs ''contextName'' of
             Some v \<Rightarrow> (case v of JStr s \<Rightarrow> s = contextName | _ \<Rightarrow> False)
           | None \<Rightarrow> True)
      | JArr xs \<Rightarrow> True
      | _ \<Rightarrow> False)"

definition isArray :: "jsval \<Rightarrow> bool" where
  "isArray v = (case v of JArr xs \<Rightarrow> True | _ \<Rightarrow> False)"

text \<open>\<open>Array.prototype.findIndex\<close> and \<open>findLastIndex\<close>: the index of the first (last)
  element that satisfies the predicate, \<open>-1\<close> when there is none.\<close>

fun findIndex :: "('a \<Rightarrow> bool) \<Rightarrow> 'a list \<Rightarrow> int" where
  "findIndex P [] = - 1"
| "findIndex P (x # xs) =
     (if P x then 0
      else (let i = findIndex P xs in if i = - 1 then - 1 else i + 1))"

definition findLastIndex :: "('a \<Rightarrow> bool) \<Rightarrow> 'a list \<Rightarrow> int" where
  "findLastIndex P xs =
     (let i = findIndex P (rev xs) in if i = - 1 then - 1 else int (length xs) - 1 - i)"

text \<open>The loop over the factory functions of an exported array: the value of \<open>tmp\<close>
  when the loop is left.\<close>

fun factoryLoop :: "string \<Rightarrow> jsval list \<Rightarrow> jsval \<Rightarrow> jsval" where
  "factoryLoop contextName [] tmp = tmp"
| "factoryLoop contextName (f # fs) tmp =
     (case f of
        JFun g \<Rightarrow>
          (let configCandidate = g contextName in
           if \<not> isValidConfigFactoryResult contextName configCandidate
           then factoryLoop contextName fs tmp
           else configCandidate)
      | _ \<Rightarrow> factoryLoop contextName fs tmp)"

definition configFileNotFoundMessage :: "string list \<Rightarrow> string" where
  "configFileNotFoundMessage paths =
     ''MikroORM config file not found in ['' @ quote
       @ join (quote @ '', '' @ quote) paths @ quote @ '']''"

definition notFoundInArrayMessage :: "string \<Rightarrow> string \<Rightarrow> string" where
  "notFoundInArrayMessage contextName path =
     ''MikroORM config '' @ quote @ contextName @ quote
       @ '' was not found within the config file '' @ quote @ path @ quote
       @ ''. Either add a config with this name to the array, or add a function that when given this name will return a configuration object without a name, or with name set to this name.''"

definition notUniqueMessage :: "string \<Rightarrow> string \<Rightarrow> int \<Rightarrow> int \<Rightarrow> string" where
  "notUniqueMessage contextName path tmpFirstIndex tmpLastIndex =
     ''MikroORM config '' @ quote @ contextName @ quote
       @ '' is not unique within the array exported by '' @ quote @ path @ quote
       @ '' (first occurrence index: '' @ showInt tmpFirstIndex
       @ ''; last occurrence index: '' @ showInt tmpLastIndex @ '')''"

definition factoryMismatchMessage :: "string \<Rightarrow> string \<Rightarrow> string" where
  "factoryMismatchMessage contextName path =
     ''MikroORM config '' @ quote @ contextName @ quote
       @ '' was not what the function exported from '' @ quote @ path @ quote
       @ '' provided. Ensure it returns a config object with no name, or name matching the requested one.''"

definition exportMismatchMessage :: "string \<Rightarrow> string \<Rightarrow> string" where
  "exportMismatchMessage contextName path =
     ''MikroORM config '' @ quote @ contextName @ quote
       @ '' was not what the default export from '' @ quote @ path @ quote
       @ '' provided.''"

text \<open>The part of \<open>getConfiguration\<close> that reduces the imported value \<open>tmp\<close> to one
  configuration (its \<open>if (Array.isArray(tmp)) ... else ...\<close> statement).\<close>

definition selectConfig :: "string \<Rightarrow> string \<Rightarrow> jsval \<Rightarrow> error + jsval" where
  "selectConfig contextName path tmp =
     (case tmp of
        JArr xs \<Rightarrow>
          (let tmpFirstIndex = findIndex (configFinder contextName) xs in
           if tmpFirstIndex = - 1 then
             (let tmp' = factoryLoop contextName xs tmp in
              if isArray tmp' then Inl (Error (notFoundInArrayMessage contextName path))
              else Inr tmp')
           else
             (let tmpLastIndex = findLastIndex (configFinder contextName) xs in
              if tmpLastIndex \<noteq> tmpFirstIndex
              then Inl (Error (notUniqueMessage contextName path tmpFirstIndex tmpLastIndex))
              else Inr (xs ! nat tmpFirstIndex)))
      | JFun g \<Rightarrow>
          (let tmp' = g contextName in
           if \<not> isValidConfigFactoryResult contextName tmp'
           then Inl (Error (factoryMismatchMessage contextName path))
           else Inr tmp')
      | _ \<Rightarrow>
          if \<not> configFinder contextName tmp
          then Inl (Error (exportMismatchMessage contextName path))
          else Inr tmp)"

section \<open>\<open>getConfiguration\<close>\<close>

definition esmConfigOptions :: "world \<Rightarrow> props" where
  "esmConfigOptions w =
     (if isESM w then [(''entityGenerator'', JObj [(''esmImport'', JBool True)])] else [])"

text \<open>
  \<open>getConfiguration(contextName, paths, options)\<close> called with a context name and an
  array of paths (the overload that is not deprecated; the backwards compatibility
  layer for a boolean first argument is left out). The \<open>Configuration\<close> it returns is
  given by the options object handed to the constructor.
\<close>

text \<open>\<open>options.baseDir ?? process.cwd()\<close>\<close>

definition basePathOf :: "world \<Rightarrow> props \<Rightarrow> string" where
  "basePathOf w options = (case map_of options ''baseDir'' of Some (JStr d) \<Rightarrow> d | _ \<Rightarrow> cwd w)"

definition getConfiguration :: "world \<Rightarrow> string \<Rightarrow> string list \<Rightarrow> props \<Rightarrow> error + jsval" where
  "getConfiguration w contextName paths options =
     (let settings = getSettings w;
          basePath = basePathOf w options
      in case loadEnvironmentVars w of
           Inl e \<Rightarrow> Inl e
         | Inr envOptions \<Rightarrow>
             (case fst (getConfigFile w paths basePath settings) of
                None \<Rightarrow>
                  if hasObjectKeys envOptions
                  then Inr (mergeConfig (JObj [(''contextName'', JStr contextName)])
                              [JObj options, envOptions])
                  else Inl (Error (configFileNotFoundMessage paths))
              | Some (path, tmp) \<Rightarrow>
                  (case selectConfig contextName path tmp of
                     Inl e \<Rightarrow> Inl e
                   | Inr tmp' \<Rightarrow>
                       Inr (mergeConfig (JObj [])
                              [JObj (esmConfigOptions w), tmp', JObj options, envOptions]))))"

section \<open>The version guard\<close>









section \<open>Example worlds\<close>

text \<open>A process with an empty environment, in a directory that holds no file, with an
  empty manifest; paths resolve against the working directory, no module can be
  required, and \<open>trim\<close> strips the white space of ASCII.\<close>

definition isAsciiSpace :: "char \<Rightarrow> bool" where
  "isAsciiSpace c = (c \<in> set [CHR '' '', CHR 0x09, CHR 0x0A, CHR 0x0B, CHR 0x0C, CHR 0x0D])"

definition trimAscii :: "string \<Rightarrow> string" where
  "trimAscii s = rev (dropWhile isAsciiSpace (rev (dropWhile isAsciiSpace s)))"

definition noSettings :: settings where
  "noSettings =
     \<lparr>verbose = None, tsConfigPath = None, configPaths = None, loader = None,
      alwaysAllowTs = None, useTsNode = None, preferTs = None\<rparr>"

definition noPackage :: package_json where
  "noPackage =
     \<lparr>pkgSettings = noSettings, pkgType = None, dependencies = [], devDependencies = []\<rparr>"

definition bareWorld :: world where
  "bareWorld =
     \<lparr>env = Map.empty, cwd = ''/app'', versionsBun = None,
      pathExistsSync = (\<lambda>p. False), packageConfig = noPackage, ormVersion = ''6.4.0'',
      detectTsNode = False,
      absolutePath =
        (\<lambda>p. if startsWith p ''/'' then p
             else if startsWith p ''./'' then ''/app/'' @ drop 2 p
             else ''/app/'' @ p),
      normalizePath = (\<lambda>p. p),
      createLoader = (\<lambda>basePath settings path. JUndefined),
      requireFrom = (\<lambda>m. None), toNumber = (\<lambda>v. JUndefined), trim = trimAscii,
      cyan = (\<lambda>t. t), yellow = (\<lambda>t. t), green = (\<lambda>t. t)\<rparr>"

text \<open>The config path is given by the environment and ends in \<open>.ts\<close>; no TypeScript
  loader is detected and nothing sets \<open>alwaysAllowTs\<close>.\<close>

definition tsOverrideWorld :: world where
  "tsOverrideWorld = bareWorld\<lparr>env := [''MIKRO_ORM_CLI_CONFIG'' \<mapsto> ''./orm.config.ts'']\<rparr>"

text \<open>The manifest declares two config paths, one of them the path the environment
  gives too; a \<open>build\<close> directory exists and a TypeScript loader is detected.\<close>

definition declaredPathsWorld :: world where
  "declaredPathsWorld =
     bareWorld
       \<lparr>env := [''MIKRO_ORM_CLI_CONFIG'' \<mapsto> ''./cfg.ts''],
        pathExistsSync := (\<lambda>p. p = ''/app/build''),
        packageConfig :=
          noPackage\<lparr>pkgSettings :=
            noSettings\<lparr>configPaths := Some [''./mikro-orm.config.js'', ''./cfg.ts'']\<rparr>\<rparr>,
        detectTsNode := True\<rparr>"

text \<open>Of three candidate paths the second and the third exist; the loader gives an
  object for every path.\<close>

definition secondFileWorld :: world where
  "secondFileWorld =
     bareWorld
       \<lparr>pathExistsSync := (\<lambda>p. p = ''/app/b.js'' \<or> p = ''/app/c.js''),
        createLoader := (\<lambda>basePath settings path. JObj [(''loadedFrom'', JStr path)])\<rparr>"


text \<open>A project whose config file \<open>/app/mikro-orm.config.js\<close> exports the given value.\<close>

definition configWorld :: "jsval \<Rightarrow> world" where
  "configWorld exported =
     bareWorld
       \<lparr>pathExistsSync := (\<lambda>p. p = ''/app/mikro-orm.config.js''),
        createLoader := (\<lambda>basePath settings path. exported)\<rparr>"

text \<open>An ECMAScript-module project with a config file, two variables in the environment
  and options given by the caller.\<close>

definition fileConfig :: props where
  "fileConfig =
     [(''dbName'', JStr ''dev''),
      (''entities'', JArr [JStr ''Author'', JStr ''Book'']),
      (''migrations'', JObj [(''tableName'', JStr ''mig''), (''path'', JStr ''./migrations'')])]"

definition callerOptions :: props where
  "callerOptions =
     [(''dbName'', JStr ''test''), (''entities'', JArr [JStr ''Tag'']), (''debug'', JBool True)]"

definition mergeWorld :: world where
  "mergeWorld =
     (configWorld (JObj fileConfig))
       \<lparr>env := [''MIKRO_ORM_DB_NAME'' \<mapsto> ''prod'',
                ''MIKRO_ORM_MIGRATIONS_PATH'' \<mapsto> ''./dist/migrations''],
        packageConfig := noPackage\<lparr>pkgType := Some ''module''\<rparr>\<rparr>"

text \<open>An exported array of two factory functions: the first returns an empty array, the
  second a configuration named as requested.\<close>

definition arrayFactoryExport :: jsval where
  "arrayFactoryExport =
     JArr [JFun (\<lambda>name. JArr []),
           JFun (\<lambda>name. JObj [(''contextName'', JStr name), (''dbName'', JStr ''db'')])]"

text \<open>No config file anywhere, one recognised variable in the environment.\<close>

definition envOnlyWorld :: world where
  "envOnlyWorld = bareWorld\<lparr>env := [''MIKRO_ORM_DB_NAME'' \<mapsto> ''prod'']\<rparr>"

section \<open>Boolean-like strings: \<open>loaderOptionFromEnv\<close> and \<open>toBoolean\<close>\<close>

lemma lowerChar_cases:
  "lowerChar c = c \<or> (c, lowerChar c) \<in> set (zip ''ABCDEFGHIJKLMNOPQRSTUVWXYZ'' ''abcdefghijklmnopqrstuvwxyz'')"
proof (cases "map_of (zip ''ABCDEFGHIJKLMNOPQRSTUVWXYZ'' ''abcdefghijklmnopqrstuvwxyz'') c")
  case None
  then show ?thesis unfolding lowerChar_def by simp
next
  case (Some d)
  then have "lowerChar c = d" unfolding lowerChar_def by simp
  moreover from Some have "(c, d) \<in> set (zip ''ABCDEFGHIJKLMNOPQRSTUVWXYZ'' ''abcdefghijklmnopqrstuvwxyz'')"
    by (rule map_of_SomeD)
  ultimately show ?thesis by simp
qed

lemma upper_lower_table:
  "list_all (\<lambda>(c, d). upperChar d = c) (zip ''ABCDEFGHIJKLMNOPQRSTUVWXYZ'' ''abcdefghijklmnopqrstuvwxyz'')"
  by (simp add: upperChar_def)

lemma upperChar_of_pair:
  assumes "(c, d) \<in> set (zip ''ABCDEFGHIJKLMNOPQRSTUVWXYZ'' ''abcdefghijklmnopqrstuvwxyz'')"
  shows "upperChar d = c"
proof -
  from bspec [OF upper_lower_table [unfolded list_all_iff] assms]
  show ?thesis by (simp only: prod.case)
qed

lemma lowerChar_upperChar: "c = lowerChar c \<or> c = upperChar (lowerChar c)"
  using lowerChar_cases [of c] upperChar_of_pair [of c "lowerChar c"] by metis

lemma toLowerCase_casingOf: "casingOf v (toLowerCase v)"
  unfolding casingOf_def toLowerCase_def
  by (simp add: list_all2_map2 list_all2_same lowerChar_upperChar)

lemma casingOf_toLowerCase:
  "casingOf v s \<Longrightarrow> \<forall>d\<in>set s. lowerChar d = d \<and> lowerChar (upperChar d) = d \<Longrightarrow> toLowerCase v = s"
  unfolding casingOf_def toLowerCase_def
  by (induction v s rule: list_all2_induct) auto

lemma table_stable_all:
  "list_all (list_all (\<lambda>d. lowerChar d = d \<and> lowerChar (upperChar d) = d)) (falsyStrings @ truthyStrings)"
  by code_simp

lemma table_stable:
  assumes "s \<in> set falsyStrings \<union> set truthyStrings"
  shows "\<forall>d\<in>set s. lowerChar d = d \<and> lowerChar (upperChar d) = d"
proof -
  from assms have "s \<in> set (falsyStrings @ truthyStrings)" by simp
  with table_stable_all show ?thesis unfolding list_all_iff by blast
qed

lemma in_falsy_iff: "toLowerCase v \<in> set falsyStrings \<longleftrightarrow> (\<exists>s\<in>set falsyStrings. casingOf v s)"
  using toLowerCase_casingOf casingOf_toLowerCase table_stable by (metis UnCI)

lemma in_truthy_iff: "toLowerCase v \<in> set truthyStrings \<longleftrightarrow> (\<exists>s\<in>set truthyStrings. casingOf v s)"
  using toLowerCase_casingOf casingOf_toLowerCase table_stable by (metis UnCI)

text \<open>
  \<^bold>\<open>C9.\<close> For every input string, \<open>loaderOptionFromEnv\<close> gives \<open>false\<close> for every
  casing of a falsy string, \<open>'auto'\<close> for every casing of a truthy string, and the
  input itself, unchanged, for every other string. The function is total: it has no
  error result.
\<close>

theorem loaderOptionFromEnv_decodes:
  "loaderOptionFromEnv v =
     (if \<exists>s\<in>set falsyStrings. casingOf v s then LoaderFalse
      else if \<exists>s\<in>set truthyStrings. casingOf v s then LoaderName ''auto''
      else LoaderName v)"
  unfolding loaderOptionFromEnv_def Let_def in_falsy_iff in_truthy_iff by simp

theorem loaderOptionFromEnv_decodes_witness:
  "(\<exists>s\<in>set falsyStrings. casingOf ''No'' s) \<and> loaderOptionFromEnv ''No'' = LoaderFalse
   \<and> (\<exists>s\<in>set truthyStrings. casingOf ''YES'' s) \<and> loaderOptionFromEnv ''YES'' = LoaderName ''auto''
   \<and> loaderOptionFromEnv ''Jiti'' = LoaderName ''Jiti''"
proof -
  have a: "\<exists>s\<in>set falsyStrings. casingOf ''No'' s"
    by (simp add: falsyStrings_def casingOf_def upperChar_def)
  have b: "\<exists>s\<in>set truthyStrings. casingOf ''YES'' s"
    by (simp add: truthyStrings_def casingOf_def upperChar_def)
  have nb: "\<not> (\<exists>s\<in>set falsyStrings. casingOf ''YES'' s)"
    by (simp add: falsyStrings_def casingOf_def upperChar_def)
  have c: "\<not> (\<exists>s\<in>set falsyStrings. casingOf ''Jiti'' s)"
    by (simp add: falsyStrings_def casingOf_def upperChar_def)
  have d: "\<not> (\<exists>s\<in>set truthyStrings. casingOf ''Jiti'' s)"
    by (simp add: truthyStrings_def casingOf_def upperChar_def)
  show ?thesis
    using a b nb c d loaderOptionFromEnv_decodes [of "''No''"]
      loaderOptionFromEnv_decodes [of "''YES''"] loaderOptionFromEnv_decodes [of "''Jiti''"]
    by simp
qed

text \<open>Every casing of a falsy string does decode to \<open>false\<close>: whatever is not in
  \<open>truthyStrings\<close> does.\<close>

lemma truthy_lower: "v \<in> set truthyStrings \<Longrightarrow> toLowerCase v = v"
  using table_stable [of v] by (simp add: toLowerCase_def map_idI)

lemma falsy_truthy_disjoint: "s \<in> set falsyStrings \<Longrightarrow> s \<notin> set truthyStrings"
  by (auto simp: falsyStrings_def truthyStrings_def)

lemma toBoolean_falsy_casings:
  assumes "\<exists>s\<in>set falsyStrings. casingOf v s"
  shows "toBoolean v = False"
proof -
  from assms have "toLowerCase v \<in> set falsyStrings" by (simp only: in_falsy_iff)
  then have "toLowerCase v \<notin> set truthyStrings" by (rule falsy_truthy_disjoint)
  then have "v \<notin> set truthyStrings" using truthy_lower [of v] by auto
  then show ?thesis by (simp add: toBoolean_def)
qed

lemmas env_eval =
  loadEnvironmentVars_def rootVars_def read_def readNamespace_def discoveryVars_def
  migrationsVars_def schemaGeneratorVars_def seederVars_def cleanup_def hasObjectKeys_def Let_def

text \<open>
  \<^bold>\<open>C4.\<close> The boolean decoder \<open>toBoolean\<close> looks its argument up in \<open>truthyStrings\<close>
  as it is, without lower-casing it: \<open>TRUE\<close> is a casing of the truthy string \<open>true\<close>
  and decodes to \<open>false\<close>, for \<open>MIKRO_ORM_DEBUG\<close> in \<open>loadEnvironmentVars\<close> as for
  \<open>MIKRO_ORM_CLI_VERBOSE\<close> in \<open>getSettings\<close>, while \<open>loaderOptionFromEnv\<close> reads the
  same string as truthy.
\<close>

theorem toBoolean_is_case_sensitive:
  "casingOf ''TRUE'' ''true'' \<and> ''true'' \<in> set truthyStrings
   \<and> toBoolean ''TRUE'' = False
   \<and> loadEnvironmentVars (bareWorld\<lparr>env := [''MIKRO_ORM_DEBUG'' \<mapsto> ''TRUE'']\<rparr>)
       = Inr (JObj [(''debug'', JBool False)])
   \<and> verbose (getSettings (bareWorld\<lparr>env := [''MIKRO_ORM_CLI_VERBOSE'' \<mapsto> ''Yes'']\<rparr>)) = Some False
   \<and> loaderOptionFromEnv ''TRUE'' = LoaderName ''auto''"
proof -
  have a: "casingOf ''TRUE'' ''true'' \<and> ''true'' \<in> set truthyStrings \<and> toBoolean ''TRUE'' = False"
    by (simp add: casingOf_def upperChar_def truthyStrings_def toBoolean_def)
  have b: "loadEnvironmentVars (bareWorld\<lparr>env := [''MIKRO_ORM_DEBUG'' \<mapsto> ''TRUE'']\<rparr>)
       = Inr (JObj [(''debug'', JBool False)])"
    by (simp add: env_eval bareWorld_def toBoolean_def truthyStrings_def)
  have c: "verbose (getSettings (bareWorld\<lparr>env := [''MIKRO_ORM_CLI_VERBOSE'' \<mapsto> ''Yes'']\<rparr>)) = Some False"
    by (simp add: getSettings_def Let_def bareWorld_def toBoolean_def truthyStrings_def)
  have d: "loaderOptionFromEnv ''TRUE'' = LoaderName ''auto''"
    by (simp add: loaderOptionFromEnv_def toLowerCase_def lowerChar_def falsyStrings_def
        truthyStrings_def)
  from a b c d show ?thesis by simp
qed

section \<open>Candidate paths: \<open>getConfigPaths\<close>\<close>

lemma unique_filter: "unique (filter P xs) = filter P (unique xs)"
proof (induction xs rule: unique.induct)
  case 1
  then show ?case by simp
next
  case (2 x xs)
  show ?case
  proof (cases "P x")
    case True
    have "filter (\<lambda>y. y \<noteq> x) (filter P xs) = filter P (filter (\<lambda>y. y \<noteq> x) xs)"
      by (simp add: conj_commute)
    with True 2 show ?thesis by simp
  next
    case False
    then have "filter P (filter (\<lambda>y. y \<noteq> x) xs) = filter P xs"
      by (auto intro: filter_cong)
    with False 2 show ?thesis by simp
  qed
qed

lemma remdups_snoc: "remdups (ys @ [x]) = filter (\<lambda>y. y \<noteq> x) (remdups ys) @ [x]"
  by (induction ys) auto

lemma unique_remdups: "unique xs = rev (remdups (rev xs))"
proof (induction xs)
  case Nil
  then show ?case by simp
next
  case (Cons x xs)
  have "unique (x # xs) = x # filter (\<lambda>y. y \<noteq> x) (unique xs)"
    by (simp add: unique_filter)
  also have "\<dots> = x # filter (\<lambda>y. y \<noteq> x) (rev (remdups (rev xs)))"
    by (simp add: Cons.IH)
  also have "\<dots> = rev (remdups (rev (x # xs)))"
    by (simp add: remdups_snoc rev_filter)
  finally show ?case .
qed

lemma distinct_unique: "distinct (unique xs)"
  by (simp add: unique_remdups)

lemma set_unique: "set (unique xs) = set xs"
  by (simp add: unique_remdups)

lemma configPaths_getSettings:
  "configPaths (getSettings w) = configPaths (pkgSettings (packageConfig w))"
  by (simp add: getSettings_def Let_def split: option.splits)

text \<open>
  \<^bold>\<open>C5.\<close> \<open>getConfigPaths\<close> returns, in this order, the path of \<open>MIKRO_ORM_CLI_CONFIG\<close>
  (when the variable is set to a non-empty string), the \<open>configPaths\<close> the manifest
  declares, the two TypeScript candidates (when \<open>useTsNode\<close> is not \<open>false\<close> or
  \<open>alwaysAllowTs\<close>, else the bun runtime, allows them), then the compiled candidate
  under \<open>dist\<close>, \<open>build\<close> or \<open>src\<close> and the one in the project root; of a path that
  occurs twice the first occurrence is kept (\<open>rev \<circ> remdups \<circ> rev\<close>), and a path stays
  only if it ends in \<open>.js\<close>, or a TypeScript loader is detected, or TypeScript is
  always allowed. The result has no duplicates.
\<close>

theorem getConfigPaths_order:
  "getConfigPaths w =
     filter (\<lambda>p. endsWith p ''.js'' \<or> detectTsNode w \<or> alwaysAllowTsOrBun w)
       (rev (remdups (rev
          ((case env w ''MIKRO_ORM_CLI_CONFIG'' of
              Some p \<Rightarrow> if p \<noteq> [] then [p] else []
            | None \<Rightarrow> [])
           @ (case configPaths (pkgSettings (packageConfig w)) of Some ps \<Rightarrow> ps | None \<Rightarrow> [])
           @ (if useTsNode (getSettings w) \<noteq> Some False \<or> alwaysAllowTsOrBun w
              then [''./src/mikro-orm.config.ts'', ''./mikro-orm.config.ts'']
              else [])
           @ [''./''
                @ (if pathExistsSync w (cwd w @ ''/dist'') then ''dist''
                   else if pathExistsSync w (cwd w @ ''/build'') then ''build''
                   else ''src'')
                @ ''/mikro-orm.config.js'',
              ''./mikro-orm.config.js'']))))
   \<and> distinct (getConfigPaths w)"
proof
  show "distinct (getConfigPaths w)"
    by (simp add: getConfigPaths_def distinct_unique)
  show "getConfigPaths w =
     filter (\<lambda>p. endsWith p ''.js'' \<or> detectTsNode w \<or> alwaysAllowTsOrBun w)
       (rev (remdups (rev
          ((case env w ''MIKRO_ORM_CLI_CONFIG'' of
              Some p \<Rightarrow> if p \<noteq> [] then [p] else []
            | None \<Rightarrow> [])
           @ (case configPaths (pkgSettings (packageConfig w)) of Some ps \<Rightarrow> ps | None \<Rightarrow> [])
           @ (if useTsNode (getSettings w) \<noteq> Some False \<or> alwaysAllowTsOrBun w
              then [''./src/mikro-orm.config.ts'', ''./mikro-orm.config.ts'']
              else [])
           @ [''./''
                @ (if pathExistsSync w (cwd w @ ''/dist'') then ''dist''
                   else if pathExistsSync w (cwd w @ ''/build'') then ''build''
                   else ''src'')
                @ ''/mikro-orm.config.js'',
              ''./mikro-orm.config.js'']))))"
    unfolding getConfigPaths_def pushedPaths_def Let_def unique_remdups configPaths_getSettings
    by (rule arg_cong [where f = "filter _"], rule arg_cong [where f = rev], rule arg_cong [where f = remdups], rule arg_cong [where f = rev]) simp
qed

theorem getConfigPaths_order_witness:
  "getConfigPaths declaredPathsWorld =
     [''./cfg.ts'', ''./mikro-orm.config.js'', ''./src/mikro-orm.config.ts'',
      ''./mikro-orm.config.ts'', ''./build/mikro-orm.config.js'']"
proof -
  have s: "getSettings declaredPathsWorld =
      noSettings\<lparr>configPaths := Some [''./mikro-orm.config.js'', ''./cfg.ts''], useTsNode := Some True\<rparr>"
    by (simp add: getSettings_def declaredPathsWorld_def bareWorld_def noPackage_def noSettings_def
        Let_def endsWith_def)
  have f: "\<not> alwaysAllowTsOrBun declaredPathsWorld"
    by (simp add: alwaysAllowTsOrBun_def s) (simp add: declaredPathsWorld_def bareWorld_def noSettings_def)
  have e: "env declaredPathsWorld ''MIKRO_ORM_CLI_CONFIG'' = Some ''./cfg.ts''"
    "detectTsNode declaredPathsWorld" "cwd declaredPathsWorld = ''/app''"
    "pathExistsSync declaredPathsWorld = (\<lambda>p. p = ''/app/build'')"
    "configPaths (pkgSettings (packageConfig declaredPathsWorld)) = Some [''./mikro-orm.config.js'', ''./cfg.ts'']"
    by (simp_all add: declaredPathsWorld_def bareWorld_def noPackage_def noSettings_def)
  show ?thesis
    using getConfigPaths_order [of declaredPathsWorld]
    by (simp add: s f e)
qed

lemma endsWith_ts_not_js: "endsWith p ''.ts'' \<Longrightarrow> \<not> endsWith p ''.js''"
  by (auto simp: endsWith_def)

lemma endsWith_nonempty: "endsWith p ''.ts'' \<Longrightarrow> p \<noteq> []"
  by (auto simp: endsWith_def)

lemma useTsNode_ts_override:
  "env w ''MIKRO_ORM_CLI_CONFIG'' = Some p \<Longrightarrow> endsWith p ''.ts'' \<Longrightarrow>
   useTsNode (getSettings w) = Some True"
  by (simp add: getSettings_def Let_def)

lemma override_pushed:
  "env w ''MIKRO_ORM_CLI_CONFIG'' = Some p \<Longrightarrow> p \<noteq> [] \<Longrightarrow> p \<in> set (pushedPaths w)"
  by (simp add: pushedPaths_def Let_def)

text \<open>
  \<^bold>\<open>C6.\<close> As it is stated, the property fails: with \<open>MIKRO_ORM_CLI_CONFIG=./orm.config.ts\<close>, no
  TypeScript loader detected and \<open>alwaysAllowTs\<close> unset, the override path is not among
  the paths \<open>getConfigPaths\<close> returns.
\<close>

theorem ts_override_dropped_counterexample:
  "env tsOverrideWorld ''MIKRO_ORM_CLI_CONFIG'' = Some ''./orm.config.ts''
   \<and> endsWith ''./orm.config.ts'' ''.ts''
   \<and> \<not> detectTsNode tsOverrideWorld
   \<and> alwaysAllowTs (getSettings tsOverrideWorld) = None
   \<and> getConfigPaths tsOverrideWorld = [''./src/mikro-orm.config.js'', ''./mikro-orm.config.js'']
   \<and> ''./orm.config.ts'' \<notin> set (getConfigPaths tsOverrideWorld)"
proof -
  have s: "getSettings tsOverrideWorld = noSettings\<lparr>useTsNode := Some True\<rparr>"
    by (simp add: getSettings_def tsOverrideWorld_def bareWorld_def noPackage_def noSettings_def
        Let_def endsWith_def)
  have f: "\<not> alwaysAllowTsOrBun tsOverrideWorld"
    by (simp add: alwaysAllowTsOrBun_def s) (simp add: tsOverrideWorld_def bareWorld_def noSettings_def)
  have p: "pushedPaths tsOverrideWorld =
      [''./orm.config.ts'', ''./src/mikro-orm.config.ts'', ''./mikro-orm.config.ts'',
       ''./src/mikro-orm.config.js'', ''./mikro-orm.config.js'']"
    by (simp add: pushedPaths_def Let_def s f) (simp add: tsOverrideWorld_def bareWorld_def noSettings_def)
  have g: "getConfigPaths tsOverrideWorld = [''./src/mikro-orm.config.js'', ''./mikro-orm.config.js'']"
    by (simp add: getConfigPaths_def p f endsWith_def) (simp add: tsOverrideWorld_def bareWorld_def)
  show ?thesis
    by (simp add: g s) (simp add: tsOverrideWorld_def bareWorld_def noSettings_def endsWith_def)
qed

text \<open>
  \<^bold>\<open>C6, amended.\<close> When the config path given by \<open>MIKRO_ORM_CLI_CONFIG\<close> ends in
  \<open>.ts\<close>, \<open>getSettings\<close> sets \<open>useTsNode\<close> to \<open>true\<close>, so the two TypeScript candidates
  are pushed; the override path itself is among the paths \<open>getConfigPaths\<close> returns
  exactly when a TypeScript loader is detected or \<open>alwaysAllowTs\<close> (else the bun
  runtime) allows TypeScript.
\<close>

theorem ts_override_needs_loader:
  assumes "env w ''MIKRO_ORM_CLI_CONFIG'' = Some p" and "endsWith p ''.ts''"
  shows "useTsNode (getSettings w) = Some True
    \<and> ''./src/mikro-orm.config.ts'' \<in> set (pushedPaths w)
    \<and> ''./mikro-orm.config.ts'' \<in> set (pushedPaths w)
    \<and> (p \<in> set (getConfigPaths w) \<longleftrightarrow> detectTsNode w \<or> alwaysAllowTsOrBun w)"
proof -
  have u: "useTsNode (getSettings w) = Some True"
    using assms by (rule useTsNode_ts_override)
  then have t: "''./src/mikro-orm.config.ts'' \<in> set (pushedPaths w)"
    "''./mikro-orm.config.ts'' \<in> set (pushedPaths w)"
    by (simp_all add: pushedPaths_def Let_def)
  have "p \<in> set (pushedPaths w)"
    using assms endsWith_nonempty override_pushed by blast
  then have "p \<in> set (getConfigPaths w) \<longleftrightarrow> detectTsNode w \<or> alwaysAllowTsOrBun w"
    using endsWith_ts_not_js [OF assms(2)] by (simp add: getConfigPaths_def set_unique)
  with u t show ?thesis by blast
qed

theorem ts_override_needs_loader_witness:
  "env declaredPathsWorld ''MIKRO_ORM_CLI_CONFIG'' = Some ''./cfg.ts''
   \<and> endsWith ''./cfg.ts'' ''.ts''
   \<and> useTsNode (getSettings declaredPathsWorld) = Some True
   \<and> detectTsNode declaredPathsWorld
   \<and> ''./cfg.ts'' \<in> set (getConfigPaths declaredPathsWorld)"
proof -
  have a: "env declaredPathsWorld ''MIKRO_ORM_CLI_CONFIG'' = Some ''./cfg.ts''"
    by (simp add: declaredPathsWorld_def)
  have b: "endsWith ''./cfg.ts'' ''.ts''"
    by (simp add: endsWith_def)
  have c: "detectTsNode declaredPathsWorld"
    by (simp add: declaredPathsWorld_def)
  from ts_override_needs_loader [OF a b] a b c show ?thesis by simp
qed

section \<open>The config file: \<open>getConfigFile\<close>\<close>

lemma configFileLoop_none:
  "\<forall>q\<in>set paths. \<not> pathExistsSync w (resolvePath w q) \<Longrightarrow> configFileLoop w imp paths = (None, [])"
  by (induction paths) simp_all

lemma configFileLoop_first:
  "\<forall>q\<in>set pre. \<not> pathExistsSync w (resolvePath w q) \<Longrightarrow> pathExistsSync w (resolvePath w p) \<Longrightarrow>
   configFileLoop w imp (pre @ p # post) = (Some (resolvePath w p, imp (resolvePath w p)), [resolvePath w p])"
  by (induction pre) (simp_all add: Let_def)

lemma configFileLoop_log:
  "\<forall>q\<in>set (snd (configFileLoop w imp paths)). pathExistsSync w q"
  by (induction paths) (simp_all add: Let_def)

text \<open>
  \<^bold>\<open>C7.\<close> \<open>getConfigFile\<close> tests the paths in the given order, each made absolute and
  normalised: for the first path that exists it returns that path with what the
  loader's \<open>import\<close> gives for it, and \<open>import\<close> is called on that path only; when no
  path exists the result is empty and \<open>import\<close> is not called. Every path \<open>import\<close> is
  called on exists.
\<close>

theorem getConfigFile_first_existing:
  "(\<forall>pre p post.
      paths = pre @ p # post
      \<and> (\<forall>q\<in>set pre. \<not> pathExistsSync w (resolvePath w q))
      \<and> pathExistsSync w (resolvePath w p)
      \<longrightarrow> getConfigFile w paths basePath settings
          = (Some (resolvePath w p, createLoader w basePath settings (resolvePath w p)),
             [resolvePath w p]))
   \<and> ((\<forall>q\<in>set paths. \<not> pathExistsSync w (resolvePath w q))
        \<longrightarrow> getConfigFile w paths basePath settings = (None, []))
   \<and> (\<forall>q\<in>set (snd (getConfigFile w paths basePath settings)). pathExistsSync w q)"
  unfolding getConfigFile_def Let_def
  using configFileLoop_none configFileLoop_first configFileLoop_log by blast

theorem getConfigFile_first_existing_witness:
  "getConfigFile secondFileWorld [''a.js'', ''b.js'', ''c.js''] ''/app'' noSettings
     = (Some (''/app/b.js'', JObj [(''loadedFrom'', JStr ''/app/b.js'')]), [''/app/b.js''])
   \<and> getConfigFile secondFileWorld [''a.js'', ''d.js''] ''/app'' noSettings = (None, [])"
proof -
  have r: "resolvePath secondFileWorld ''a.js'' = ''/app/a.js''"
    "resolvePath secondFileWorld ''b.js'' = ''/app/b.js''"
    "resolvePath secondFileWorld ''d.js'' = ''/app/d.js''"
    by (simp_all add: resolvePath_def secondFileWorld_def bareWorld_def startsWith_def)
  have x: "pathExistsSync secondFileWorld = (\<lambda>p. p = ''/app/b.js'' \<or> p = ''/app/c.js'')"
    "createLoader secondFileWorld = (\<lambda>basePath settings path. JObj [(''loadedFrom'', JStr path)])"
    by (simp_all add: secondFileWorld_def)
  have h1: "[''a.js'', ''b.js'', ''c.js''] = [''a.js''] @ ''b.js'' # [''c.js'']
      \<and> (\<forall>q\<in>set [''a.js'']. \<not> pathExistsSync secondFileWorld (resolvePath secondFileWorld q))
      \<and> pathExistsSync secondFileWorld (resolvePath secondFileWorld ''b.js'')"
    by (simp add: r x)
  have h2: "\<forall>q\<in>set [''a.js'', ''d.js'']. \<not> pathExistsSync secondFileWorld (resolvePath secondFileWorld q)"
    by (simp add: r x)
  from getConfigFile_first_existing [of "[''a.js'', ''b.js'', ''c.js'']" secondFileWorld "''/app''" noSettings,
      THEN conjunct1, rule_format, OF h1]
    getConfigFile_first_existing [of "[''a.js'', ''d.js'']" secondFileWorld "''/app''" noSettings,
      THEN conjunct2, THEN conjunct1, THEN mp, OF h2]
  show ?thesis by (simp add: r x)
qed

section \<open>Merging: \<open>getConfiguration\<close>\<close>

lemma override_None [simp]: "override None hi = hi"
  by (simp add: override_def split: option.splits jsval.splits)

lemma map_of_mergeProps:
  "distinct (map fst s) \<Longrightarrow> map_of (mergeProps t s) k = override (map_of t k) (map_of s k)"
proof (induction s arbitrary: t)
  case Nil
  then show ?case by (simp add: override_def)
next
  case (Cons a s)
  obtain k' v where a: "a = (k', v)" by (cases a)
  define x where "x = (case v of
             JObj vs \<Rightarrow> (case map_of t k' of Some (JObj ts) \<Rightarrow> JObj (mergeProps ts vs) | _ \<Rightarrow> v)
           | _ \<Rightarrow> v)"
  from Cons.prems a have d: "distinct (map fst s)" and n: "map_of s k' = None"
    by (auto simp: map_of_eq_None_iff)
  have m: "mergeProps t (a # s) = mergeProps (AList.update k' x t) s"
    by (simp add: a x_def)
  have i: "map_of (mergeProps (AList.update k' x t) s) k
      = override (map_of (AList.update k' x t) k) (map_of s k)"
    using Cons.IH [OF d] .
  show ?case
  proof (cases "k = k'")
    case True
    have "override (map_of t k') (Some v) = Some x"
      by (simp add: override_def x_def split: option.splits jsval.splits)
    with True m i n a show ?thesis by (simp add: update_conv' override_def)
  next
    case False
    with m i a show ?thesis by (simp add: update_conv')
  qed
qed

lemma distinct_mergeProps: "distinct (map fst t) \<Longrightarrow> distinct (map fst (mergeProps t s))"
  by (induction t s rule: mergeProps.induct) (simp_all add: distinct_update)

lemma mergeConfig_four:
  "mergeConfig (JObj t) [JObj a, JObj b, JObj c, JObj d]
     = JObj (mergeProps (mergeProps (mergeProps (mergeProps t a) b) c) d)"
  by (simp add: mergeConfig_def mergeInto_def)

lemma map_of_merge_four:
  assumes "distinct (map fst a)" "distinct (map fst b)" "distinct (map fst c)" "distinct (map fst d)"
  shows "map_of (mergeProps (mergeProps (mergeProps (mergeProps [] a) b) c) d) k
     = override (override (override (map_of a k) (map_of b k)) (map_of c k)) (map_of d k)"
  using assms by (simp add: map_of_mergeProps)

lemma read_distinct:
  "read w ob envKey key m = Inr ob' \<Longrightarrow> distinct (map fst ob) \<Longrightarrow> distinct (map fst ob')"
  by (auto simp: read_def distinct_update split: option.splits sum.splits)

lemma readAll_distinct:
  "readAll w vars ob = Inr ob' \<Longrightarrow> distinct (map fst ob) \<Longrightarrow> distinct (map fst ob')"
proof (induction vars arbitrary: ob)
  case Nil
  then show ?case by simp
next
  case (Cons a vars)
  obtain envKey key m where a: "a = (envKey, key, m)" by (cases a)
  from Cons.prems(1) a obtain ob1 where r: "read w ob envKey key m = Inr ob1"
    and s: "readAll w vars ob1 = Inr ob'"
    by (auto split: sum.splits)
  from read_distinct [OF r Cons.prems(2)] Cons.IH [OF s] show ?case by blast
qed

lemma readNamespace_distinct:
  "readNamespace w k vars ret = Inr ret' \<Longrightarrow> distinct (map fst ret) \<Longrightarrow> distinct (map fst ret')"
  by (auto simp: readNamespace_def cleanup_def Let_def distinct_update distinct_delete
      split: sum.splits if_splits)

lemma loadEnvironmentVars_distinct:
  assumes "loadEnvironmentVars w = Inr (JObj E)"
  shows "distinct (map fst E)"
proof -
  from assms obtain r0 r1 r2 r3 where
    a: "readAll w rootVars [] = Inr r0"
    and b: "readNamespace w ''discovery'' discoveryVars r0 = Inr r1"
    and c: "readNamespace w ''migrations'' migrationsVars r1 = Inr r2"
    and d: "readNamespace w ''schemaGenerator'' schemaGeneratorVars r2 = Inr r3"
    and e: "readNamespace w ''seeder'' seederVars r3 = Inr E"
    unfolding loadEnvironmentVars_def by (auto split: sum.splits)
  have "distinct (map fst r0)" using readAll_distinct [OF a] by simp
  then have "distinct (map fst r1)" by (rule readNamespace_distinct [OF b])
  then have "distinct (map fst r2)" by (rule readNamespace_distinct [OF c])
  then have "distinct (map fst r3)" by (rule readNamespace_distinct [OF d])
  then show ?thesis by (rule readNamespace_distinct [OF e])
qed

lemma loadEnvironmentVars_object:
  "loadEnvironmentVars w = Inr v \<Longrightarrow> \<exists>E. v = JObj E"
  unfolding loadEnvironmentVars_def by (auto split: sum.splits)

lemma esm_distinct: "distinct (map fst (esmConfigOptions w))"
  by (simp add: esmConfigOptions_def)

lemma getConfiguration_merges_sources:
  assumes env: "loadEnvironmentVars w = Inr (JObj E)"
    and found: "fst (getConfigFile w paths (basePathOf w opts) (getSettings w)) = Some (path, exported)"
    and sel: "selectConfig N path exported = Inr (JObj F)"
    and dF: "distinct (map fst F)" and dO: "distinct (map fst opts)"
  shows "\<exists>R. getConfiguration w N paths opts = Inr (JObj R)
    \<and> JObj R = mergeConfig (JObj []) [JObj (esmConfigOptions w), JObj F, JObj opts, JObj E]
    \<and> (\<forall>k. map_of R k
          = override (override (override (map_of (esmConfigOptions w) k) (map_of F k)) (map_of opts k))
              (map_of E k))"
proof -
  let ?R = "mergeProps (mergeProps (mergeProps (mergeProps [] (esmConfigOptions w)) F) opts) E"
  have g: "getConfiguration w N paths opts
      = Inr (mergeConfig (JObj []) [JObj (esmConfigOptions w), JObj F, JObj opts, JObj E])"
    using env found sel by (simp add: getConfiguration_def Let_def)
  have m: "mergeConfig (JObj []) [JObj (esmConfigOptions w), JObj F, JObj opts, JObj E] = JObj ?R"
    by (rule mergeConfig_four)
  have "\<forall>k. map_of ?R k
      = override (override (override (map_of (esmConfigOptions w) k) (map_of F k)) (map_of opts k))
          (map_of E k)"
    using map_of_merge_four [OF esm_distinct dF dO loadEnvironmentVars_distinct [OF env]] by blast
  with g m show ?thesis by simp
qed

lemma override_absent: "override lo None = lo"
  by (simp add: override_def)

lemma override_replaces: "\<forall>h. v \<noteq> JObj h \<Longrightarrow> override lo (Some v) = Some v"
  by (cases v) (simp_all add: override_def)

lemma override_merges: "override (Some (JObj l)) (Some (JObj h)) = Some (JObj (mergeProps l h))"
  by (simp add: override_def)

lemma override_mapping_over_other:
  "\<forall>l. lo \<noteq> Some (JObj l) \<Longrightarrow> override lo (Some (JObj h)) = Some (JObj h)"
  by (simp add: override_def split: option.splits jsval.splits)

text \<open>
  \<^bold>\<open>C1.\<close> When the environment decodes to \<open>E\<close>, a config file is found and the
  selection gives the configuration \<open>F\<close>, \<open>getConfiguration\<close> called with the options
  \<open>opts\<close> returns the merge of the module-kind flag object, \<open>F\<close>, \<open>opts\<close> and \<open>E\<close>, in
  this order, into an empty object. Under every key the result holds what \<open>override\<close>
  gives along that order: the value of the highest source that has the key, two
  mappings being merged key-wise and every other value replaced (an object holds a
  key once, so the keys of \<open>F\<close> and of \<open>opts\<close> are distinct). So a value of \<open>E\<close>
  that is not a mapping stands in the result as it is, a value of \<open>opts\<close> does when \<open>E\<close>
  lacks the key, and a value of \<open>F\<close> does when \<open>E\<close> and \<open>opts\<close> lack it.
\<close>

theorem getConfiguration_merge_precedence:
  assumes env: "loadEnvironmentVars w = Inr (JObj E)"
    and found: "fst (getConfigFile w paths (basePathOf w opts) (getSettings w)) = Some (path, exported)"
    and sel: "selectConfig N path exported = Inr (JObj F)"
    and dF: "distinct (map fst F)" and dO: "distinct (map fst opts)"
  shows "\<exists>R. getConfiguration w N paths opts = Inr (JObj R)
    \<and> JObj R = mergeConfig (JObj []) [JObj (esmConfigOptions w), JObj F, JObj opts, JObj E]
    \<and> (\<forall>k. map_of R k
          = override (override (override (map_of (esmConfigOptions w) k) (map_of F k)) (map_of opts k))
              (map_of E k))
    \<and> (\<forall>k v. map_of E k = Some v \<and> (\<forall>h. v \<noteq> JObj h) \<longrightarrow> map_of R k = Some v)
    \<and> (\<forall>k v. map_of E k = None \<and> map_of opts k = Some v \<and> (\<forall>h. v \<noteq> JObj h)
          \<longrightarrow> map_of R k = Some v)
    \<and> (\<forall>k v. map_of E k = None \<and> map_of opts k = None \<and> map_of F k = Some v \<and> (\<forall>h. v \<noteq> JObj h)
          \<longrightarrow> map_of R k = Some v)"
proof -
  from getConfiguration_merges_sources [OF assms] obtain R where
    r: "getConfiguration w N paths opts = Inr (JObj R)"
      "JObj R = mergeConfig (JObj []) [JObj (esmConfigOptions w), JObj F, JObj opts, JObj E]"
    and l: "\<forall>k. map_of R k
          = override (override (override (map_of (esmConfigOptions w) k) (map_of F k)) (map_of opts k))
              (map_of E k)"
    by blast
  have a: "\<forall>k v. map_of E k = Some v \<and> (\<forall>h. v \<noteq> JObj h) \<longrightarrow> map_of R k = Some v"
    using l by (simp add: override_replaces)
  have b: "\<forall>k v. map_of E k = None \<and> map_of opts k = Some v \<and> (\<forall>h. v \<noteq> JObj h)
          \<longrightarrow> map_of R k = Some v"
    using l by (simp add: override_replaces override_absent)
  have c: "\<forall>k v. map_of E k = None \<and> map_of opts k = None \<and> map_of F k = Some v \<and> (\<forall>h. v \<noteq> JObj h)
          \<longrightarrow> map_of R k = Some v"
    using l by (simp add: override_replaces override_absent)
  from r l a b c show ?thesis by blast
qed

theorem getConfiguration_merge_precedence_witness:
  "getConfiguration mergeWorld ''default'' [''./mikro-orm.config.js''] callerOptions
     = Inr (JObj
         [(''entityGenerator'', JObj [(''esmImport'', JBool True)]),
          (''dbName'', JStr ''prod''),
          (''entities'', JArr [JStr ''Tag'']),
          (''migrations'',
             JObj [(''tableName'', JStr ''mig''), (''path'', JStr ''./dist/migrations'')]),
          (''debug'', JBool True)])"
proof -
  have e: "loadEnvironmentVars mergeWorld
      = Inr (JObj [(''dbName'', JStr ''prod''),
                   (''migrations'', JObj [(''path'', JStr ''./dist/migrations'')])])"
    by (simp add: env_eval mergeWorld_def configWorld_def bareWorld_def)
  have f: "fst (getConfigFile mergeWorld [''./mikro-orm.config.js''] (basePathOf mergeWorld callerOptions)
              (getSettings mergeWorld))
      = Some (''/app/mikro-orm.config.js'', JObj fileConfig)"
    by (simp add: getConfigFile_def Let_def resolvePath_def mergeWorld_def configWorld_def
        bareWorld_def startsWith_def)
  have s: "selectConfig ''default'' ''/app/mikro-orm.config.js'' (JObj fileConfig) = Inr (JObj fileConfig)"
    by (simp add: selectConfig_def configFinder_def fileConfig_def)
  have d: "distinct (map fst fileConfig)" "distinct (map fst callerOptions)"
    by (simp_all add: fileConfig_def callerOptions_def)
  have m: "esmConfigOptions mergeWorld = [(''entityGenerator'', JObj [(''esmImport'', JBool True)])]"
    by (simp add: esmConfigOptions_def isESM_def mergeWorld_def configWorld_def noPackage_def)
  from getConfiguration_merge_precedence [OF e f s d]
  obtain R where r: "getConfiguration mergeWorld ''default'' [''./mikro-orm.config.js''] callerOptions = Inr (JObj R)"
    and j: "JObj R = mergeConfig (JObj [])
         [JObj (esmConfigOptions mergeWorld), JObj fileConfig, JObj callerOptions,
          JObj [(''dbName'', JStr ''prod''), (''migrations'', JObj [(''path'', JStr ''./dist/migrations'')])]]"
    by blast
  from j have "R = [(''entityGenerator'', JObj [(''esmImport'', JBool True)]),
          (''dbName'', JStr ''prod''),
          (''entities'', JArr [JStr ''Tag'']),
          (''migrations'',
             JObj [(''tableName'', JStr ''mig''), (''path'', JStr ''./dist/migrations'')]),
          (''debug'', JBool True)]"
    by (simp add: m mergeConfig_def mergeInto_def fileConfig_def callerOptions_def)
  with r show ?thesis by simp
qed

lemma getConfigFile_none:
  "\<forall>p\<in>set paths. \<not> pathExistsSync w (resolvePath w p) \<Longrightarrow>
   getConfigFile w paths basePath settings = (None, [])"
  unfolding getConfigFile_def Let_def by (induction paths) simp_all

text \<open>
  \<^bold>\<open>C3.\<close> When none of the candidate paths exists, \<open>getConfiguration\<close> imports nothing;
  it returns the merge of \<open>{contextName}\<close>, the caller's options and the decoded
  environment when the latter is not empty, and fails with the message
  \<open>MikroORM config file not found in [...]\<close>, which lists the candidate paths as they
  were given, when it is empty.
\<close>

theorem getConfiguration_no_file:
  assumes env: "loadEnvironmentVars w = Inr (JObj E)"
    and none: "\<forall>p\<in>set paths. \<not> pathExistsSync w (resolvePath w p)"
  shows "getConfiguration w N paths opts =
      (if E \<noteq> []
       then Inr (mergeConfig (JObj [(''contextName'', JStr N)]) [JObj opts, JObj E])
       else Inl (Error (configFileNotFoundMessage paths)))
    \<and> snd (getConfigFile w paths (basePathOf w opts) (getSettings w)) = []
    \<and> configFileNotFoundMessage paths
        = ''MikroORM config file not found in ['' @ quote
            @ join (quote @ '', '' @ quote) paths @ quote @ '']''"
  using env getConfigFile_none [OF none]
  by (simp add: getConfiguration_def Let_def hasObjectKeys_def configFileNotFoundMessage_def)

theorem getConfiguration_no_file_witness:
  "getConfiguration envOnlyWorld ''default'' [''./a.js'', ''./b.js''] [(''debug'', JBool True)]
     = Inr (JObj [(''contextName'', JStr ''default''), (''debug'', JBool True),
                  (''dbName'', JStr ''prod'')])
   \<and> getConfiguration bareWorld ''default'' [''./a.js'', ''./b.js''] [(''debug'', JBool True)]
     = Inl (Error ''MikroORM config file not found in ['./a.js', './b.js']'')"
proof -
  have e1: "loadEnvironmentVars envOnlyWorld = Inr (JObj [(''dbName'', JStr ''prod'')])"
    by (simp add: env_eval envOnlyWorld_def bareWorld_def)
  have e2: "loadEnvironmentVars bareWorld = Inr (JObj [])"
    by (simp add: env_eval bareWorld_def)
  have n1: "\<forall>p\<in>set [''./a.js'', ''./b.js'']. \<not> pathExistsSync envOnlyWorld (resolvePath envOnlyWorld p)"
    by (simp add: envOnlyWorld_def bareWorld_def)
  have n2: "\<forall>p\<in>set [''./a.js'', ''./b.js'']. \<not> pathExistsSync bareWorld (resolvePath bareWorld p)"
    by (simp add: bareWorld_def)
  from getConfiguration_no_file [OF e1 n1, of "''default''" "[(''debug'', JBool True)]"]
    getConfiguration_no_file [OF e2 n2, of "''default''" "[(''debug'', JBool True)]"]
  show ?thesis
    by (simp add: mergeConfig_def mergeInto_def quote_def)
qed

section \<open>Selection: arrays, factories and plain objects\<close>

lemma findIndex_ge: "- 1 \<le> findIndex P xs"
  by (induction xs) (auto simp: Let_def)

lemma findIndex_none_iff: "findIndex P xs = - 1 \<longleftrightarrow> (\<forall>x\<in>set xs. \<not> P x)"
proof (induction xs)
  case Nil
  then show ?case by simp
next
  case (Cons a xs)
  have "- 1 \<le> findIndex P xs" by (rule findIndex_ge)
  with Cons show ?case by (auto simp: Let_def)
qed

lemma findIndex_first:
  "\<forall>y\<in>set pre. \<not> P y \<Longrightarrow> P x \<Longrightarrow> findIndex P (pre @ x # post) = int (length pre)"
  by (induction pre) (auto simp: Let_def)

lemma findLastIndex_last:
  assumes "P x" and "\<forall>y\<in>set post. \<not> P y"
  shows "findLastIndex P (pre @ x # post) = int (length pre)"
proof -
  have "findIndex P (rev post @ x # rev pre) = int (length (rev post))"
    using assms by (intro findIndex_first) auto
  then show ?thesis by (simp add: findLastIndex_def Let_def)
qed

lemma factoryLoop_none:
  "\<forall>g. JFun g \<in> set xs \<longrightarrow> \<not> isValidConfigFactoryResult N (g N) \<Longrightarrow> factoryLoop N xs tmp = tmp"
  by (induction xs) (auto simp: Let_def split: jsval.splits)

lemma factoryLoop_first:
  "\<forall>h. JFun h \<in> set pre \<longrightarrow> \<not> isValidConfigFactoryResult N (h N) \<Longrightarrow>
   isValidConfigFactoryResult N (g N) \<Longrightarrow>
   factoryLoop N (pre @ JFun g # post) tmp = g N"
  by (induction pre) (auto simp: Let_def split: jsval.splits)

text \<open>What \<open>getConfiguration\<close> does with an exported array: one matching entry is
  selected; two or more give the error that reports the first and the last matching
  index; with no matching entry the first factory whose result is valid decides, and
  when no factory gives a valid result the configuration is not found.\<close>

lemma selectConfig_unique:
  assumes "configFinder N x"
    and "\<forall>y\<in>set pre. \<not> configFinder N y" and "\<forall>y\<in>set post. \<not> configFinder N y"
  shows "selectConfig N path (JArr (pre @ x # post)) = Inr x"
  using findIndex_first [of pre "configFinder N" x post] findLastIndex_last [of "configFinder N" x post pre] assms
  by (simp add: selectConfig_def Let_def)

lemma selectConfig_ambiguous:
  assumes "configFinder N x" and "configFinder N y"
    and "\<forall>z\<in>set pre. \<not> configFinder N z" and "\<forall>z\<in>set post. \<not> configFinder N z"
  shows "selectConfig N path (JArr (pre @ x # mid @ y # post))
    = Inl (Error (notUniqueMessage N path (int (length pre)) (int (length pre + length mid + 1))))"
proof -
  have f: "findIndex (configFinder N) (pre @ x # mid @ y # post) = int (length pre)"
    using assms by (intro findIndex_first) auto
  have "findLastIndex (configFinder N) ((pre @ x # mid) @ y # post) = int (length (pre @ x # mid))"
    using assms by (intro findLastIndex_last) auto
  then have l: "findLastIndex (configFinder N) (pre @ x # mid @ y # post) = int (length pre + length mid + 1)"
    by simp
  show ?thesis by (simp add: selectConfig_def Let_def f l)
qed

lemma selectConfig_factory:
  assumes "\<forall>y\<in>set (pre @ JFun g # post). \<not> configFinder N y"
    and "\<forall>h. JFun h \<in> set pre \<longrightarrow> \<not> isValidConfigFactoryResult N (h N)"
    and "isValidConfigFactoryResult N (g N)" and "\<not> isArray (g N)"
  shows "selectConfig N path (JArr (pre @ JFun g # post)) = Inr (g N)"
proof -
  have "findIndex (configFinder N) (pre @ JFun g # post) = - 1"
    using assms(1) by (simp only: findIndex_none_iff)
  moreover have "factoryLoop N (pre @ JFun g # post) (JArr (pre @ JFun g # post)) = g N"
    using assms(2,3) by (rule factoryLoop_first)
  ultimately show ?thesis using assms(4) by (simp add: selectConfig_def Let_def)
qed

lemma selectConfig_not_found:
  assumes "\<forall>y\<in>set xs. \<not> configFinder N y"
    and "\<forall>g. JFun g \<in> set xs \<longrightarrow> \<not> isValidConfigFactoryResult N (g N)"
  shows "selectConfig N path (JArr xs) = Inl (Error (notFoundInArrayMessage N path))"
proof -
  have "findIndex (configFinder N) xs = - 1"
    using assms(1) by (simp only: findIndex_none_iff)
  moreover have "factoryLoop N xs (JArr xs) = JArr xs"
    using assms(2) by (rule factoryLoop_none)
  ultimately show ?thesis by (simp add: selectConfig_def Let_def isArray_def)
qed

text \<open>
  \<^bold>\<open>C2.\<close> The factory loop stops at the first result that
  \<open>isValidConfigFactoryResult\<close> accepts, and an array is such a result; the test
  \<open>Array.isArray(tmp)\<close> after the loop then reads it as "nothing found". For the
  exported array \<open>[() => [], name => ({contextName: name, dbName: 'db'})]\<close> and the
  context name \<open>reporting\<close> the second factory returns a configuration of that name,
  and \<open>getConfiguration\<close> fails with the "not found within the config file" error.
\<close>

theorem array_factory_stops_at_array_result:
  "isValidConfigFactoryResult ''reporting'' (JArr [])
   \<and> isValidConfigFactoryResult ''reporting''
        (JObj [(''contextName'', JStr ''reporting''), (''dbName'', JStr ''db'')])
   \<and> \<not> isArray (JObj [(''contextName'', JStr ''reporting''), (''dbName'', JStr ''db'')])
   \<and> selectConfig ''reporting'' ''/app/mikro-orm.config.js'' arrayFactoryExport
       = Inl (Error (notFoundInArrayMessage ''reporting'' ''/app/mikro-orm.config.js''))
   \<and> getConfiguration (configWorld arrayFactoryExport) ''reporting'' [''./mikro-orm.config.js''] []
       = Inl (Error (notFoundInArrayMessage ''reporting'' ''/app/mikro-orm.config.js''))"
proof -
  have s: "selectConfig ''reporting'' ''/app/mikro-orm.config.js'' arrayFactoryExport
       = Inl (Error (notFoundInArrayMessage ''reporting'' ''/app/mikro-orm.config.js''))"
    by (simp add: selectConfig_def arrayFactoryExport_def Let_def isValidConfigFactoryResult_def
        configFinder_def isArray_def)
  have e: "loadEnvironmentVars (configWorld arrayFactoryExport) = Inr (JObj [])"
    by (simp add: loadEnvironmentVars_def configWorld_def bareWorld_def rootVars_def read_def
        readNamespace_def discoveryVars_def migrationsVars_def schemaGeneratorVars_def
        seederVars_def cleanup_def hasObjectKeys_def Let_def)
  have f: "fst (getConfigFile (configWorld arrayFactoryExport) [''./mikro-orm.config.js''] b st)
      = Some (''/app/mikro-orm.config.js'', arrayFactoryExport)" for b st
    by (simp add: getConfigFile_def Let_def resolvePath_def configWorld_def bareWorld_def startsWith_def)
  have g: "getConfiguration (configWorld arrayFactoryExport) ''reporting'' [''./mikro-orm.config.js''] []
       = Inl (Error (notFoundInArrayMessage ''reporting'' ''/app/mikro-orm.config.js''))"
    by (simp add: getConfiguration_def Let_def e f s)
  show ?thesis
    using s g by (simp add: isValidConfigFactoryResult_def isArray_def)
qed

text \<open>
  \<^bold>\<open>C10.\<close> A configuration object without a \<open>contextName\<close> is a valid factory result
  for every requested context name: returned by an exported function it is selected,
  and so it is when returned by a function of an exported array in which no entry
  matches and no earlier function gives a valid result. Exported as a plain object it
  is selected only for the context name \<open>default\<close>; for every other name
  \<open>getConfiguration\<close> fails.
\<close>

theorem factory_result_without_contextName:
  assumes "map_of kvs ''contextName'' = None"
  shows "isValidConfigFactoryResult N (JObj kvs)
    \<and> (g N = JObj kvs \<longrightarrow> selectConfig N path (JFun g) = Inr (JObj kvs))
    \<and> (g N = JObj kvs
         \<and> (\<forall>y\<in>set (pre @ JFun g # post). \<not> configFinder N y)
         \<and> (\<forall>h. JFun h \<in> set pre \<longrightarrow> \<not> isValidConfigFactoryResult N (h N))
         \<longrightarrow> selectConfig N path (JArr (pre @ JFun g # post)) = Inr (JObj kvs))
    \<and> (configFinder N (JObj kvs) \<longleftrightarrow> N = ''default'')
    \<and> selectConfig N path (JObj kvs)
        = (if N = ''default'' then Inr (JObj kvs)
           else Inl (Error (exportMismatchMessage N path)))"
proof -
  have v: "isValidConfigFactoryResult N (JObj kvs)"
    using assms by (simp add: isValidConfigFactoryResult_def)
  have c: "configFinder N (JObj kvs) \<longleftrightarrow> N = ''default''"
    using assms by (simp add: configFinder_def)
  have t: "g N = JObj kvs \<longrightarrow> selectConfig N path (JFun g) = Inr (JObj kvs)"
    using v by (simp add: selectConfig_def Let_def)
  have a: "g N = JObj kvs
         \<and> (\<forall>y\<in>set (pre @ JFun g # post). \<not> configFinder N y)
         \<and> (\<forall>h. JFun h \<in> set pre \<longrightarrow> \<not> isValidConfigFactoryResult N (h N))
         \<longrightarrow> selectConfig N path (JArr (pre @ JFun g # post)) = Inr (JObj kvs)"
    using v selectConfig_factory [of pre g post N path] by (auto simp: isArray_def)
  have p: "selectConfig N path (JObj kvs)
        = (if N = ''default'' then Inr (JObj kvs)
           else Inl (Error (exportMismatchMessage N path)))"
    using c by (simp add: selectConfig_def)
  from v t a c p show ?thesis by blast
qed

theorem factory_result_without_contextName_witness:
  "map_of [(''dbName'', JStr ''reports'')] ''contextName'' = None
   \<and> isValidConfigFactoryResult ''reporting'' (JObj [(''dbName'', JStr ''reports'')])
   \<and> selectConfig ''reporting'' ''/app/cfg.js'' (JFun (\<lambda>n. JObj [(''dbName'', JStr ''reports'')]))
       = Inr (JObj [(''dbName'', JStr ''reports'')])
   \<and> selectConfig ''reporting'' ''/app/cfg.js''
        (JArr [JObj [(''contextName'', JStr ''main'')], JFun (\<lambda>n. JObj [(''dbName'', JStr ''reports'')])])
       = Inr (JObj [(''dbName'', JStr ''reports'')])
   \<and> selectConfig ''reporting'' ''/app/cfg.js'' (JObj [(''dbName'', JStr ''reports'')])
       = Inl (Error (exportMismatchMessage ''reporting'' ''/app/cfg.js''))
   \<and> selectConfig ''default'' ''/app/cfg.js'' (JObj [(''dbName'', JStr ''reports'')])
       = Inr (JObj [(''dbName'', JStr ''reports'')])"
proof -
  have h: "map_of [(''dbName'', JStr ''reports'')] ''contextName'' = None" by simp
  have n: "(\<lambda>n. JObj [(''dbName'', JStr ''reports'')]) ''reporting'' = JObj [(''dbName'', JStr ''reports'')]
         \<and> (\<forall>y\<in>set ([JObj [(''contextName'', JStr ''main'')]] @ JFun (\<lambda>n. JObj [(''dbName'', JStr ''reports'')]) # []).
               \<not> configFinder ''reporting'' y)
         \<and> (\<forall>h. JFun h \<in> set [JObj [(''contextName'', JStr ''main'')]] \<longrightarrow>
               \<not> isValidConfigFactoryResult ''reporting'' (h ''reporting''))"
    by (simp add: configFinder_def)
  note t = factory_result_without_contextName [OF h,
      of "''reporting''" "\<lambda>n. JObj [(''dbName'', JStr ''reports'')]" "''/app/cfg.js''"
         "[JObj [(''contextName'', JStr ''main'')]]" "[]"]
  note d = factory_result_without_contextName [OF h,
      of "''default''" "\<lambda>n. JObj [(''dbName'', JStr ''reports'')]" "''/app/cfg.js''"
         "[JObj [(''contextName'', JStr ''main'')]]" "[]"]
  from t n d h show ?thesis by simp
qed

section \<open>The version guard: \<open>checkPackageVersion\<close>\<close>











end
